theory Spec2Isabelle
  imports Main "HOL-Library.AList" "HOL-Library.Char_ord" "HOL-Library.List_Lexorder"
    "HOL-Library.Product_Lexorder" "HOL-Library.Multiset"
begin

section \<open>xtbug: a debug window fed through a named pipe\<close>

text \<open>
  The program is one Python 2 module, \<^verbatim>\<open>xtbug.py\<close>. The class \<^verbatim>\<open>XTBug\<close> lives in
  the debugged process: its constructor creates a named pipe, starts an xterm that runs
  the same module as a script, and opens the pipe for writing without blocking; calling
  the instance sends one pickled list of (name, text) pairs. The function
  \<^verbatim>\<open>_xterm_win\<close> runs inside the xterm: it unpickles one list after the other and
  paints it with curses.

  Python's \<^verbatim>\<open>str\<close> is a byte string here, modelled as \<^typ>\<open>string\<close>. The library
  functions the module only calls on its data (\<^verbatim>\<open>str\<close>, \<^verbatim>\<open>pprint.pformat\<close>,
  \<^verbatim>\<open>pickle.dumps\<close>) are parameters of the definitions that call them, taken to
  return a string for every argument. The operating system is a record \<open>world\<close> that
  every system call takes and returns. A function that can raise returns the exception
  as a value of \<open>py_error\<close>.
\<close>

subsection \<open>Errors\<close>

datatype errno = EEXIST | ENOENT | EACCES | EBADF | EAGAIN

datatype py_error = OSError errno | KeyError | EOFError | curses_error

subsection \<open>The display side: \<^verbatim>\<open>_xterm_win\<close> and its \<^verbatim>\<open>main\<close>\<close>

type_synonym snapshot = "(string \<times> string) list"

text \<open>
  The curses window \<^verbatim>\<open>scr\<close> is the list of calls made on it, oldest first, those
  that raised included. Whether \<^verbatim>\<open>addstr\<close> at the top left of a cleared window
  raises \<^verbatim>\<open>curses.error\<close> depends on the text and on the geometry of the terminal;
  it is the parameter \<open>fits\<close>.
\<close>

datatype curses_call = Clear | Addstr nat nat string | Refresh

record display =
  outprev :: string
  scr :: "curses_call list"

text \<open>
  \<^verbatim>\<open>name = '{0} {1} '.format(name[:29], '.' * (28 - len(name[:29])))\<close>: a string
  times a negative number is the empty string, as the truncating subtraction gives.
\<close>

definition name_field :: "string \<Rightarrow> string" where
  "name_field name =
     take 29 name @ '' '' @ replicate (28 - length (take 29 name)) (CHR ''.'') @ '' ''"

text \<open>\<^verbatim>\<open>fmt = "{0:30}{1}\n"\<close>: the first field is padded with spaces to 30, never cut.\<close>

definition fmt :: "string \<Rightarrow> string \<Rightarrow> string" where
  "fmt name val = name @ replicate (30 - length name) (CHR '' '') @ val @ [CHR 0x0A]"

text \<open>The \<^verbatim>\<open>for each in _pickle.load(sin)\<close> loop, \<open>out\<close> being its accumulator.\<close>

fun rows :: "string \<Rightarrow> snapshot \<Rightarrow> string" where
  "rows out [] = out"
| "rows out ((name, val) # rest) = rows (out @ fmt (name_field name) val) rest"

definition too_long :: string where
  "too_long = ''Error: Output line too long?''"

text \<open>
  One turn of \<^verbatim>\<open>while True\<close>, after \<^verbatim>\<open>_pickle.load(sin)\<close> has returned \<open>snap\<close>.
  A \<^verbatim>\<open>curses.error\<close> of the second \<^verbatim>\<open>addstr\<close> is not caught. The result is
  what the turn raises, if anything, and the display as the turn leaves it.
\<close>

definition iteration ::
  "(string \<Rightarrow> bool) \<Rightarrow> display \<Rightarrow> snapshot \<Rightarrow> (py_error + unit) \<times> display" where
  "iteration fits d snap =
     (let out = rows [] snap in
      if out \<noteq> [] \<and> out \<noteq> outprev d then
        (let d1 = d\<lparr>scr := scr d @ [Clear, Addstr 0 0 out]\<rparr> in
         if fits out then (Inr (), d1\<lparr>outprev := out, scr := scr d1 @ [Refresh]\<rparr>)
         else
           (let d2 = d1\<lparr>scr := scr d1 @ [Addstr 0 0 too_long]\<rparr> in
            if fits too_long then (Inr (), d2\<lparr>outprev := out, scr := scr d2 @ [Refresh]\<rparr>)
            else (Inl curses_error, d2)))
      else (Inr (), d))"

text \<open>
  The loop of \<^verbatim>\<open>main\<close>. The stream \<open>sin\<close> is the list of objects that the successive
  calls of \<^verbatim>\<open>_pickle.load(sin)\<close> return; at its end \<^verbatim>\<open>load\<close> raises
  \<^verbatim>\<open>EOFError\<close>. The loop is left by an exception only, so the result is the
  exception and the display as it is then.
\<close>

fun main :: "(string \<Rightarrow> bool) \<Rightarrow> display \<Rightarrow> snapshot list \<Rightarrow> py_error \<times> display" where
  "main fits d [] = (EOFError, d)"
| "main fits d (snap # sin) =
     (case iteration fits d snap of
        (Inl e, d') \<Rightarrow> (e, d')
      | (Inr u, d') \<Rightarrow> main fits d' sin)"

text \<open>The number of \<^verbatim>\<open>scr.refresh()\<close> calls so far: each one paints the terminal.\<close>

definition repaints :: "display \<Rightarrow> nat" where
  "repaints d = length (filter (\<lambda>c. c = Refresh) (scr d))"

subsection \<open>The operating system\<close>

text \<open>
  What the module asks of the system: \<^verbatim>\<open>os.mkfifo\<close>, \<^verbatim>\<open>os.remove\<close>,
  \<^verbatim>\<open>os.open\<close>, \<^verbatim>\<open>os.write\<close>, \<^verbatim>\<open>os.close\<close> and \<^verbatim>\<open>subprocess.Popen\<close>.
  A path names a FIFO or something else; a FIFO has a buffer of bytes, kept under its own
  number so that it outlives its name while a descriptor is open. Whether an entry may be
  created or removed at a path is the environment's, as are the capacity of a pipe,
  \<^verbatim>\<open>PIPE_BUF\<close> and the programs that can be started. Descriptors and FIFOs are
  numbered by counters. The class attribute \<^verbatim>\<open>XTBug._count\<close> is process state and is
  kept in the same record.
\<close>

datatype node = Fifo nat | Other

datatype oflag = O_RDWR | O_NONBLOCK

record fd_entry =
  ino :: nat
  flags :: "oflag list"

record world =
  count :: nat
  files :: "string \<rightharpoonup> node"
  may_create :: "string \<Rightarrow> bool"
  may_remove :: "string \<Rightarrow> bool"
  pipes :: "nat \<rightharpoonup> string"
  next_ino :: nat
  fds :: "nat \<rightharpoonup> fd_entry"
  next_fd :: nat
  capacity :: nat
  pipe_buf :: nat
  programs :: "string list"
  procs :: "string list list"

definition os_mkfifo :: "world \<Rightarrow> string \<Rightarrow> py_error + world" where
  "os_mkfifo wd p =
     (if files wd p \<noteq> None then Inl (OSError EEXIST)
      else if \<not> may_create wd p then Inl (OSError EACCES)
      else Inr (wd\<lparr>files := (files wd)(p \<mapsto> Fifo (next_ino wd)),
                    pipes := (pipes wd)(next_ino wd \<mapsto> []),
                    next_ino := Suc (next_ino wd)\<rparr>))"

definition os_remove :: "world \<Rightarrow> string \<Rightarrow> py_error + world" where
  "os_remove wd p =
     (if files wd p = None then Inl (OSError ENOENT)
      else if \<not> may_remove wd p then Inl (OSError EACCES)
      else Inr (wd\<lparr>files := (files wd)(p := None)\<rparr>))"

definition os_open :: "world \<Rightarrow> string \<Rightarrow> oflag list \<Rightarrow> py_error + nat \<times> world" where
  "os_open wd p fl =
     (case files wd p of
        None \<Rightarrow> Inl (OSError ENOENT)
      | Some Other \<Rightarrow> Inl (OSError EACCES)
      | Some (Fifo i) \<Rightarrow>
          Inr (next_fd wd,
               wd\<lparr>fds := (fds wd)(next_fd wd \<mapsto> \<lparr>ino = i, flags = fl\<rparr>),
                   next_fd := Suc (next_fd wd)\<rparr>))"

text \<open>
  Writing to a pipe, after pipe(7). The descriptor of the module is opened for reading and
  writing, so the pipe always has a reader and there is no \<^verbatim>\<open>EPIPE\<close>. With room for all
  of \<open>data\<close> it is written. Without: a blocking descriptor waits for a reader to drain
  the pipe, which is the result \<open>None\<close>; a non-blocking one fails with \<^verbatim>\<open>EAGAIN\<close>
  when \<open>data\<close> is at most \<^verbatim>\<open>PIPE_BUF\<close> bytes or when the pipe is full, and otherwise
  writes the part that fits. The result is the number of bytes written.
\<close>

definition os_write :: "world \<Rightarrow> nat \<Rightarrow> string \<Rightarrow> (py_error + nat \<times> world) option" where
  "os_write wd fd data =
     (case fds wd fd of
        None \<Rightarrow> Some (Inl (OSError EBADF))
      | Some d \<Rightarrow>
         (case pipes wd (ino d) of
            None \<Rightarrow> Some (Inl (OSError EBADF))
          | Some buf \<Rightarrow>
             (let free = capacity wd - length buf in
              if length data \<le> free then
                Some (Inr (length data, wd\<lparr>pipes := (pipes wd)(ino d \<mapsto> buf @ data)\<rparr>))
              else if O_NONBLOCK \<notin> set (flags d) then None
              else if length data \<le> pipe_buf wd \<or> free = 0 then Some (Inl (OSError EAGAIN))
              else Some (Inr (free,
                     wd\<lparr>pipes := (pipes wd)(ino d \<mapsto> buf @ take free data)\<rparr>)))))"

definition os_close :: "world \<Rightarrow> nat \<Rightarrow> py_error + world" where
  "os_close wd fd =
     (if fds wd fd = None then Inl (OSError EBADF)
      else Inr (wd\<lparr>fds := (fds wd)(fd := None)\<rparr>))"

text \<open>
  \<^verbatim>\<open>subprocess.Popen(options, shell=False)\<close> raises \<^verbatim>\<open>OSError\<close> when the program,
  the first of \<open>options\<close>, is not found; otherwise the process is started.
\<close>

definition Popen :: "world \<Rightarrow> string list \<Rightarrow> py_error + world" where
  "Popen wd options =
     (case options of
        [] \<Rightarrow> Inl (OSError ENOENT)
      | prog # _ \<Rightarrow>
          if prog \<in> set (programs wd) then Inr (wd\<lparr>procs := procs wd @ [options]\<rparr>)
          else Inl (OSError ENOENT))"

subsection \<open>Python values the module uses\<close>

text \<open>\<^verbatim>\<open>str\<close> of a non-negative integer: its decimal digits.\<close>

definition digit :: "nat \<Rightarrow> char" where
  "digit n = ''0123456789'' ! n"

fun str_nat :: "nat \<Rightarrow> string" where
  "str_nat n = (if n < 10 then [digit n] else str_nat (n div 10) @ [digit (n mod 10)])"

declare str_nat.simps [simp del]

text \<open>
  A \<^verbatim>\<open>dict\<close> is the list of its items, one per key. \<^verbatim>\<open>d.pop(k)\<close> raises
  \<^verbatim>\<open>KeyError\<close> when \<open>k\<close> is missing and otherwise returns the value and removes the
  item; \<^verbatim>\<open>d[k] = v\<close> is \<^const>\<open>AList.update\<close>.
\<close>

type_synonym ('k, 'v) dict = "('k \<times> 'v) list"

definition dict_pop :: "('k, 'v) dict \<Rightarrow> 'k \<Rightarrow> py_error + 'v \<times> ('k, 'v) dict" where
  "dict_pop d k =
     (case map_of d k of
        None \<Rightarrow> Inl KeyError
      | Some v \<Rightarrow> Inr (v, AList.delete k d))"

subsection \<open>The debugged side: class \<^verbatim>\<open>XTBug\<close>\<close>

definition PIPE :: "nat \<Rightarrow> string" where
  "PIPE n = ''/tmp/xtbug'' @ str_nat n @ ''.pipe''"

record xtbug =
  mycount :: nat
  pipe :: string
  sout :: nat

definition xterm_options ::
  "string \<Rightarrow> string \<Rightarrow> nat \<Rightarrow> nat \<Rightarrow> bool \<Rightarrow> string \<Rightarrow> nat \<Rightarrow> string list" where
  "xterm_options fg bg w h hold p n =
     [''xterm'', ''+sb'', (if hold then ''-'' else ''+'') @ ''hold'', ''+aw'',
      ''-geometry'', str_nat w @ ''x'' @ str_nat h,
      ''-bg'', bg, ''-fg'', fg, ''-T'', p, ''+ah'', ''+bc'', ''-cr'', ''black'', ''-uc'',
      ''-e'', ''python'', ''./xtbug.py'', ''_xterm_win'', str_nat n]"

text \<open>
  \<^verbatim>\<open>try: mkfifo(pipe) except OSError: remove(pipe); mkfifo(pipe)\<close>. The result is the
  error that leaves the block, if any, and the world as it is then.
\<close>

definition make_pipe :: "world \<Rightarrow> string \<Rightarrow> py_error option \<times> world" where
  "make_pipe wd p =
     (case os_mkfifo wd p of
        Inr wd1 \<Rightarrow> (None, wd1)
      | Inl (OSError e) \<Rightarrow>
          (case os_remove wd p of
             Inl e1 \<Rightarrow> (Some e1, wd)
           | Inr wd1 \<Rightarrow>
               (case os_mkfifo wd1 p of
                  Inl e2 \<Rightarrow> (Some e2, wd1)
                | Inr wd2 \<Rightarrow> (None, wd2)))
      | Inl e \<Rightarrow> (Some e, wd))"

text \<open>
  \<^verbatim>\<open>XTBug.__init__\<close>. The two \<^verbatim>\<open>time.sleep\<close> calls change nothing that is
  modelled. The result is the new object or the exception, and the world.
\<close>

definition XTBug_init ::
  "string \<Rightarrow> string \<Rightarrow> nat \<Rightarrow> nat \<Rightarrow> bool \<Rightarrow> world \<Rightarrow> (py_error + xtbug) \<times> world" where
  "XTBug_init fg bg w h hold wd =
     (let n = count wd;
          wd0 = wd\<lparr>count := count wd + 1\<rparr>;
          p = PIPE n
      in case make_pipe wd0 p of
           (Some e, wd1) \<Rightarrow> (Inl e, wd1)
         | (None, wd1) \<Rightarrow>
             (case Popen wd1 (xterm_options fg bg w h hold p n) of
                Inl e \<Rightarrow> (Inl e, wd1)
              | Inr wd2 \<Rightarrow>
                  (case os_open wd2 p [O_RDWR, O_NONBLOCK] of
                     Inl e \<Rightarrow> (Inl e, wd2)
                   | Inr (fd, wd3) \<Rightarrow> (Inr \<lparr>mycount = n, pipe = p, sout = fd\<rparr>, wd3))))"

text \<open>
  The loop over \<^verbatim>\<open>args\<close> of \<^verbatim>\<open>__call__\<close>: \<^verbatim>\<open>dic[each] = variables.pop(each)\<close>,
  a \<^verbatim>\<open>KeyError\<close> going on to the next name. The result is the caller's mapping as the
  loop leaves it, and \<open>dic\<close>.
\<close>

fun pop_each ::
  "'k list \<Rightarrow> ('k, 'v) dict \<Rightarrow> ('k, 'v) dict \<Rightarrow> py_error + ('k, 'v) dict \<times> ('k, 'v) dict" where
  "pop_each [] variables dic = Inr (variables, dic)"
| "pop_each (each # args) variables dic =
     (case dict_pop variables each of
        Inl KeyError \<Rightarrow> pop_each args variables dic
      | Inl e \<Rightarrow> Inl e
      | Inr (v, variables') \<Rightarrow> pop_each args variables' (AList.update each v dic))"


text \<open>
  \<^verbatim>\<open>sorted([(str(k), _pprint.pformat(v)) for (k, v) in list(variables.items())])\<close>.
  Tuples of strings compare first by the name, then by the text, as the lexicographic
  orders on \<^typ>\<open>string \<times> string\<close> do.
\<close>

definition snapshot_of :: "('k \<Rightarrow> string) \<Rightarrow> ('v \<Rightarrow> string) \<Rightarrow> ('k, 'v) dict \<Rightarrow> snapshot" where
  "snapshot_of str pformat variables = sort (map (\<lambda>(k, v). (str k, pformat v)) variables)"

text \<open>
  \<^verbatim>\<open>XTBug.__call__(variables=None, *args)\<close>. With \<open>variables\<close> \<^verbatim>\<open>None\<close> the mapping is
  the local variables of the calling frame, \<open>caller_locals\<close>. The result is \<open>None\<close> when
  the call does not return; otherwise the returned value or the exception, the mapping
  the caller supplied as the call leaves it, and the world.
\<close>

definition XTBug_call ::
  "('k \<Rightarrow> string) \<Rightarrow> ('v \<Rightarrow> string) \<Rightarrow> (snapshot \<Rightarrow> string) \<Rightarrow> xtbug \<Rightarrow> ('k, 'v) dict \<Rightarrow>
   ('k, 'v) dict option \<Rightarrow> 'k list \<Rightarrow> world \<Rightarrow>
   ((py_error + unit) \<times> ('k, 'v) dict \<times> world) option" where
  "XTBug_call str pformat dumps self caller_locals variables args wd =
     (let variables0 = (case variables of None \<Rightarrow> caller_locals | Some m \<Rightarrow> m)
      in case (if args \<noteq> [] then pop_each args variables0 []
               else Inr (variables0, variables0)) of
           Inl e \<Rightarrow> Some (Inl e, variables0, wd)
         | Inr (mapping, variables1) \<Rightarrow>
             (case os_write wd (sout self) (dumps (snapshot_of str pformat variables1)) of
                None \<Rightarrow> None
              | Some (Inl (OSError e)) \<Rightarrow> Some (Inr (), mapping, wd)
              | Some (Inl e) \<Rightarrow> Some (Inl e, mapping, wd)
              | Some (Inr (n, wd')) \<Rightarrow> Some (Inr (), mapping, wd')))"

text \<open>\<^verbatim>\<open>XTBug.__del__\<close>: \<^verbatim>\<open>_os.close(self.sout)\<close>.\<close>

definition XTBug_del :: "xtbug \<Rightarrow> world \<Rightarrow> (py_error + unit) \<times> world" where
  "XTBug_del self wd =
     (case os_close wd (sout self) of
        Inl e \<Rightarrow> (Inl e, wd)
      | Inr wd' \<Rightarrow> (Inr (), wd'))"

subsection \<open>Example values\<close>

text \<open>
  A world with no file in it, where everything may be created and removed, with xterm
  installed and a pipe capacity of 8 bytes; the object and the world that \<^verbatim>\<open>XTBug()\<close>
  gives there; that world once the pipe holds 8 bytes; a world where a FIFO of an earlier
  session is left at the path, and the same where nothing may be removed. The function
  \<open>dumps0\<close> stands for \<^verbatim>\<open>pickle.dumps\<close> where an example needs bytes: every theorem
  below holds for any function in its place.
\<close>

definition world0 :: world where
  "world0 = \<lparr>count = 0, files = Map.empty, may_create = (\<lambda>p. True), may_remove = (\<lambda>p. True),
     pipes = Map.empty, next_ino = 0, fds = Map.empty, next_fd = 3, capacity = 8, pipe_buf = 4,
     programs = [''xterm''], procs = []\<rparr>"

definition self0 :: xtbug where
  "self0 = \<lparr>mycount = 0, pipe = ''/tmp/xtbug0.pipe'', sout = 3\<rparr>"

definition world1 :: world where
  "world1 = snd (XTBug_init ''white'' ''blue'' 120 60 True world0)"

definition world2 :: world where
  "world2 = world1\<lparr>pipes := (pipes world1)(0 \<mapsto> ''a=3;b=2;'')\<rparr>"

definition dumps0 :: "snapshot \<Rightarrow> string" where
  "dumps0 s = concat (map (\<lambda>(name, val). name @ ''='' @ val @ '';'') s)"

definition stale0 :: world where
  "stale0 = world0\<lparr>files := [''/tmp/xtbug0.pipe'' \<mapsto> Fifo 0], pipes := [0 \<mapsto> ''old''],
     next_ino := 1\<rparr>"

definition locked0 :: world where
  "locked0 = stale0\<lparr>may_remove := (\<lambda>p. False)\<rparr>"

text \<open>The display before the first turn of the loop, and two snapshots.\<close>

definition display0 :: display where
  "display0 = \<lparr>outprev = [], scr = []\<rparr>"

definition snap12 :: snapshot where
  "snap12 = [(''a'', ''1''), (''b'', ''2'')]"

definition snap32 :: snapshot where
  "snap32 = [(''a'', ''3''), (''b'', ''2'')]"

section \<open>Properties\<close>

subsection \<open>Mappings and snapshots\<close>

lemma dict_pop_KeyError: "dict_pop d k = Inl e \<Longrightarrow> e = KeyError"
  by (auto simp: dict_pop_def split: option.splits)

lemma dict_pop_missing: "dict_pop d k = Inl e \<Longrightarrow> k \<notin> fst ` set d"
  by (auto simp: dict_pop_def map_of_eq_None_iff split: option.splits)

lemma dict_pop_found:
  "dict_pop d k = Inr (v, d') \<Longrightarrow> map_of d k = Some v \<and> d' = filter (\<lambda>p. fst p \<noteq> k) d"
  by (auto simp: dict_pop_def AList.delete_eq split: option.splits intro: filter_cong)

lemma filter_absent: "k \<notin> fst ` set d \<Longrightarrow> filter (\<lambda>p. fst p \<noteq> k \<and> P p) d = filter P d"
  by (induction d) auto

lemma pop_each_mapping:
  "\<exists>dic'. pop_each args m dic = Inr (filter (\<lambda>p. fst p \<notin> set args) m, dic')"
proof (induction args arbitrary: m dic)
  case Nil
  then show ?case by simp
next
  case (Cons each args)
  show ?case
  proof (cases "dict_pop m each")
    case (Inl e)
    then have e: "e = KeyError" and absent: "each \<notin> fst ` set m"
      by (auto dest: dict_pop_KeyError dict_pop_missing)
    from Cons.IH [of m dic] obtain dic' where
      "pop_each args m dic = Inr (filter (\<lambda>p. fst p \<notin> set args) m, dic')" by blast
    with Inl e filter_absent [OF absent, of "\<lambda>p. fst p \<notin> set args"] show ?thesis by simp
  next
    case (Inr r)
    obtain v m' where r: "r = (v, m')" by (cases r)
    with Inr dict_pop_found [of m each v m'] have m': "m' = filter (\<lambda>p. fst p \<noteq> each) m" by simp
    from Cons.IH [of m' "AList.update each v dic"] obtain dic' where
      "pop_each args m' (AList.update each v dic) = Inr (filter (\<lambda>p. fst p \<notin> set args) m', dic')"
      by blast
    moreover have "filter (\<lambda>p. fst p \<notin> set args) m' = filter (\<lambda>p. fst p \<notin> set (each # args)) m"
      by (auto simp: m' intro: filter_cong)
    ultimately show ?thesis using Inr r by simp
  qed
qed

lemma update_fresh: "k \<notin> fst ` set dic \<Longrightarrow> AList.update k v dic = dic @ [(k, v)]"
  by (induction dic) auto

lemma filter_single:
  "distinct (map fst m) \<Longrightarrow> map_of m k = Some v \<Longrightarrow> filter (\<lambda>p. fst p = k) m = [(k, v)]"
  by (induction m) (auto simp: filter_empty_conv rev_image_eqI dest: map_of_SomeD split: if_splits)

lemma filter_split_key:
  "mset (filter (\<lambda>p. fst p = k \<or> P p) m) =
   mset (filter (\<lambda>p. fst p = k) m) + mset (filter P (filter (\<lambda>p. fst p \<noteq> k) m))"
  by (induction m) (auto simp del: mset_filter)

lemma pop_each_dic:
  "distinct (map fst m) \<Longrightarrow> fst ` set dic \<inter> fst ` set m = {} \<Longrightarrow>
   pop_each args m dic = Inr (m', dic') \<Longrightarrow>
   mset dic' = mset dic + mset (filter (\<lambda>p. fst p \<in> set args) m)"
proof (induction args arbitrary: m dic)
  case Nil
  then show ?case by simp
next
  case (Cons each args)
  show ?case
  proof (cases "dict_pop m each")
    case (Inl e)
    then have e: "e = KeyError" and absent: "each \<notin> fst ` set m"
      by (auto dest: dict_pop_KeyError dict_pop_missing)
    with Inl Cons.prems have "pop_each args m dic = Inr (m', dic')" by simp
    from Cons.IH [OF Cons.prems(1,2) this]
    have "mset dic' = mset dic + mset (filter (\<lambda>p. fst p \<in> set args) m)" .
    moreover have "filter (\<lambda>p. fst p \<in> set (each # args)) m = filter (\<lambda>p. fst p \<in> set args) m"
      using absent by (auto intro!: filter_cong)
    ultimately show ?thesis by simp
  next
    case (Inr r)
    obtain v m1 where r: "r = (v, m1)" by (cases r)
    with Inr dict_pop_found [of m each v m1]
    have look: "map_of m each = Some v" and m1: "m1 = filter (\<lambda>p. fst p \<noteq> each) m" by simp_all
    from look have present: "each \<in> fst ` set m" by (metis domI dom_map_of_conv_image_fst)
    with Cons.prems(2) have fresh: "each \<notin> fst ` set dic" by blast
    have d1: "distinct (map fst m1)" using Cons.prems(1) by (simp add: m1 distinct_map_filter)
    have disj: "fst ` set (AList.update each v dic) \<inter> fst ` set m1 = {}"
      using Cons.prems(2) by (auto simp: update_fresh [OF fresh] m1)
    from Inr r Cons.prems(3) have "pop_each args m1 (AList.update each v dic) = Inr (m', dic')"
      by simp
    from Cons.IH [OF d1 disj this]
    have "mset dic' = mset dic + {#(each, v)#} + mset (filter (\<lambda>p. fst p \<in> set args) m1)"
      by (simp add: update_fresh [OF fresh])
    moreover have "mset (filter (\<lambda>p. fst p \<in> set (each # args)) m) =
        mset (filter (\<lambda>p. fst p = each) m) + mset (filter (\<lambda>p. fst p \<in> set args) m1)"
      unfolding m1 using filter_split_key [of each "\<lambda>p. fst p \<in> set args" m]
      by (simp del: mset_filter filter_filter)
    ultimately show ?thesis using filter_single [OF Cons.prems(1) look] by simp
  qed
qed

lemma update_subset: "set (AList.update k v dic) \<subseteq> insert (k, v) (set dic)"
  by (induction dic) auto

lemma pop_each_subset:
  "pop_each args m dic = Inr (m', dic') \<Longrightarrow> set dic' \<subseteq> set dic \<union> set m"
proof (induction args arbitrary: m dic)
  case Nil
  then show ?case by simp
next
  case (Cons each args)
  show ?case
  proof (cases "dict_pop m each")
    case (Inl e)
    with Cons.prems dict_pop_KeyError [OF Inl] have "pop_each args m dic = Inr (m', dic')"
      by simp
    from Cons.IH [OF this] show ?thesis .
  next
    case (Inr r)
    obtain v m1 where r: "r = (v, m1)" by (cases r)
    with Inr dict_pop_found [of m each v m1]
    have look: "(each, v) \<in> set m" and m1: "set m1 \<subseteq> set m"
      by (auto dest: map_of_SomeD)
    from Inr r Cons.prems have "pop_each args m1 (AList.update each v dic) = Inr (m', dic')"
      by simp
    from Cons.IH [OF this] update_subset [of each v dic] look m1 show ?thesis by auto
  qed
qed






lemma sort_cong_mset: "mset xs = mset ys \<Longrightarrow> sort xs = sort ys"
  by (metis mset_sort properties_for_sort sorted_sort)

lemma snapshot_of_mset: "mset m = mset m' \<Longrightarrow> snapshot_of str pformat m = snapshot_of str pformat m'"
  unfolding snapshot_of_def by (rule sort_cong_mset) (metis mset_map)

lemma sorted_fst: "sorted (xs :: ('a::linorder \<times> 'b::linorder) list) \<Longrightarrow> sorted (map fst xs)"
  by (induction xs) (auto simp: less_eq_prod_def)

lemma snapshot_of_sorted: "sorted (map fst (snapshot_of str pformat m))"
  by (simp add: snapshot_of_def sorted_fst)


subsection \<open>What a call writes\<close>

lemma call_delivers:
  assumes m_def: "m = (case variables of None \<Rightarrow> caller_locals | Some x \<Rightarrow> x)"
    and S_def: "S = snapshot_of str pformat (if args = [] then m else filter (\<lambda>p. fst p \<in> set args) m)"
    and dist: "distinct (map fst m)"
    and fd: "fds wd (sout self) = Some d"
    and buf: "pipes wd (ino d) = Some buf"
    and room: "length buf + length (dumps S) \<le> capacity wd"
  shows "XTBug_call str pformat dumps self caller_locals variables args wd =
     Some (Inr (), filter (\<lambda>p. fst p \<notin> set args) m,
           wd\<lparr>pipes := (pipes wd)(ino d \<mapsto> buf @ dumps S)\<rparr>)"
proof (cases "args = []")
  case True
  with room have "length (dumps (snapshot_of str pformat m)) \<le> capacity wd - length buf"
    by (simp add: S_def)
  with True fd buf show ?thesis
    by (simp add: XTBug_call_def os_write_def S_def m_def Let_def)
next
  case False
  obtain dic where pe: "pop_each args m [] = Inr (filter (\<lambda>p. fst p \<notin> set args) m, dic)"
    using pop_each_mapping [of args m "[]"] by blast
  from pop_each_dic [OF dist _ pe] have "mset dic = mset (filter (\<lambda>p. fst p \<in> set args) m)"
    by simp
  then have "snapshot_of str pformat dic = S"
    using False by (simp add: S_def snapshot_of_mset)
  moreover from room have "length (dumps S) \<le> capacity wd - length buf" by simp
  ultimately show ?thesis using False fd buf pe
    by (simp add: XTBug_call_def os_write_def Let_def m_def [symmetric])
qed

lemma os_write_nonblock:
  assumes "\<forall>d. fds wd fd = Some d \<longrightarrow> O_NONBLOCK \<in> set (flags d)"
  shows "(\<exists>e. os_write wd fd data = Some (Inl (OSError e))) \<or>
         (\<exists>d buf n. fds wd fd = Some d \<and> pipes wd (ino d) = Some buf \<and> length buf < capacity wd \<and>
            os_write wd fd data =
              Some (Inr (n, wd\<lparr>pipes := (pipes wd)(ino d \<mapsto> buf @ take n data)\<rparr>))) \<or>
         (data = [] \<and> os_write wd fd data = Some (Inr (0, wd)))"
proof (cases "fds wd fd")
  case None
  then show ?thesis by (simp add: os_write_def)
next
  case (Some d)
  with assms have nb: "O_NONBLOCK \<in> set (flags d)" by simp
  show ?thesis
  proof (cases "pipes wd (ino d)")
    case None
    with Some show ?thesis by (simp add: os_write_def)
  next
    case (Some buf)
    note buf = this
    show ?thesis
    proof (cases "length buf < capacity wd")
      case True
      show ?thesis
      proof (cases "length data \<le> capacity wd - length buf")
        case fit: True
        have "os_write wd fd data =
            Some (Inr (length data, wd\<lparr>pipes := (pipes wd)(ino d \<mapsto> buf @ take (length data) data)\<rparr>))"
          using \<open>fds wd fd = Some d\<close> buf fit by (simp add: os_write_def)
        with \<open>fds wd fd = Some d\<close> buf True show ?thesis by blast
      next
        case False
        with \<open>fds wd fd = Some d\<close> buf nb True show ?thesis
          by (auto simp: os_write_def Let_def)
      qed
    next
      case False
      then have free: "capacity wd - length buf = 0" by simp
      show ?thesis
      proof (cases "data = []")
        case True
        have "wd\<lparr>pipes := (pipes wd)(ino d \<mapsto> buf)\<rparr> = wd" using buf by (simp add: map_upd_triv)
        with True \<open>fds wd fd = Some d\<close> buf show ?thesis by (simp add: os_write_def)
      next
        case False
        with \<open>fds wd fd = Some d\<close> buf nb free show ?thesis by (simp add: os_write_def)
      qed
    qed
  qed
qed

lemma init_descriptor:
  assumes "XTBug_init fg bg w h hold wd0 = (Inr self, wd1)"
  shows "\<exists>d. fds wd1 (sout self) = Some d \<and> flags d = [O_RDWR, O_NONBLOCK]"
  using assms
  by (auto simp: XTBug_init_def Let_def os_open_def
      split: prod.splits option.splits sum.splits node.splits)

lemma call_nonblock:
  assumes m_def: "m = (case variables of None \<Rightarrow> caller_locals | Some x \<Rightarrow> x)"
    and nb: "\<forall>d. fds wd (sout self) = Some d \<longrightarrow> O_NONBLOCK \<in> set (flags d)"
  shows "\<exists>wd'. XTBug_call str pformat dumps self caller_locals variables args wd =
            Some (Inr (), filter (\<lambda>p. fst p \<notin> set args) m, wd') \<and>
          (wd' = wd \<or>
           (\<exists>d buf n sent. fds wd (sout self) = Some d \<and> pipes wd (ino d) = Some buf \<and>
              length buf < capacity wd \<and> set sent \<subseteq> set m \<and>
              wd' = wd\<lparr>pipes := (pipes wd)
                     (ino d \<mapsto> buf @ take n (dumps (snapshot_of str pformat sent)))\<rparr>))"
proof -
  obtain mapping vars1 where
    sel: "(if args \<noteq> [] then pop_each args m [] else Inr (m, m)) = Inr (mapping, vars1)"
    and mapping: "mapping = filter (\<lambda>p. fst p \<notin> set args) m"
    using pop_each_mapping [of args m "[]"] by (cases "args = []") auto
  have sub: "set vars1 \<subseteq> set m"
    using sel pop_each_subset [of args m "[]" mapping vars1] by (cases "args = []") auto
  let ?data = "dumps (snapshot_of str pformat vars1)"
  from os_write_nonblock [OF nb, of ?data]
  consider (err) e where "os_write wd (sout self) ?data = Some (Inl (OSError e))"
    | (wrote) d buf n where "fds wd (sout self) = Some d" "pipes wd (ino d) = Some buf"
        "length buf < capacity wd"
        "os_write wd (sout self) ?data =
           Some (Inr (n, wd\<lparr>pipes := (pipes wd)(ino d \<mapsto> buf @ take n ?data)\<rparr>))"
    | (nothing) "os_write wd (sout self) ?data = Some (Inr (0, wd))"
    by blast
  then show ?thesis
  proof cases
    case err
    with sel mapping show ?thesis
      by (simp add: XTBug_call_def Let_def m_def [symmetric])
  next
    case wrote
    with sel have "XTBug_call str pformat dumps self caller_locals variables args wd =
        Some (Inr (), mapping, wd\<lparr>pipes := (pipes wd)(ino d \<mapsto> buf @ take n ?data)\<rparr>)"
      by (simp add: XTBug_call_def Let_def m_def [symmetric])
    with wrote(1-3) mapping sub show ?thesis by blast
  next
    case nothing
    with sel mapping show ?thesis
      by (simp add: XTBug_call_def Let_def m_def [symmetric])
  qed
qed

subsection \<open>Creating the pipe\<close>

lemma make_pipe_ok:
  assumes "may_create wd p" and "files wd p \<noteq> None \<longrightarrow> may_remove wd p"
  shows "make_pipe wd p =
     (None, wd\<lparr>files := (files wd)(p \<mapsto> Fifo (next_ino wd)),
               pipes := (pipes wd)(next_ino wd \<mapsto> []),
               next_ino := Suc (next_ino wd)\<rparr>)"
  using assms by (auto simp: make_pipe_def os_mkfifo_def os_remove_def)

lemma make_pipe_fails:
  assumes "\<not> (may_create wd p \<and> (files wd p \<noteq> None \<longrightarrow> may_remove wd p))"
  shows "\<exists>e wd'. make_pipe wd p = (Some (OSError e), wd')"
  using assms by (auto simp: make_pipe_def os_mkfifo_def os_remove_def)

subsection \<open>One turn of the display loop\<close>

lemma iteration_cases:
  "iteration fits d snap = (Inr (), d') \<Longrightarrow>
   d' = d \<or> (rows [] snap \<noteq> [] \<and> rows [] snap \<noteq> outprev d \<and> outprev d' = rows [] snap \<and>
             repaints d' = Suc (repaints d))"
  by (auto simp: iteration_def Let_def repaints_def split: if_splits)

lemma iteration_same: "rows [] snap = outprev d \<Longrightarrow> iteration fits d snap = (Inr (), d)"
  by (simp add: iteration_def)

lemma iteration_again:
  "iteration fits d snap = (Inr (), d') \<Longrightarrow> iteration fits d' snap = (Inr (), d')"
  by (auto simp: iteration_def Let_def split: if_splits)

lemma iteration_raises:
  "iteration fits d snap = (Inl e, d') \<Longrightarrow> repaints d' = repaints d"
  by (auto simp: iteration_def Let_def repaints_def split: if_splits)

subsection \<open>The example values, evaluated\<close>

lemma str_nat_0: "str_nat 0 = ''0''"
  by (simp add: str_nat.simps digit_def)

lemma init_world0: "XTBug_init ''white'' ''blue'' 120 60 True world0 = (Inr self0, world1)"
  by (simp add: world1_def XTBug_init_def make_pipe_def os_mkfifo_def os_open_def Popen_def
      xterm_options_def world0_def self0_def PIPE_def str_nat_0 Let_def)

lemma world1_fd: "fds world1 3 = Some \<lparr>ino = 0, flags = [O_RDWR, O_NONBLOCK]\<rparr>"
  by (simp add: world1_def XTBug_init_def make_pipe_def os_mkfifo_def os_open_def Popen_def
      xterm_options_def world0_def self0_def PIPE_def str_nat_0 Let_def)

lemma world1_pipe: "pipes world1 0 = Some []"
  by (simp add: world1_def XTBug_init_def make_pipe_def os_mkfifo_def os_open_def Popen_def
      xterm_options_def world0_def self0_def PIPE_def str_nat_0 Let_def)

lemma world1_capacity: "capacity world1 = 8"
  by (simp add: world1_def XTBug_init_def make_pipe_def os_mkfifo_def os_open_def Popen_def
      xterm_options_def world0_def self0_def PIPE_def str_nat_0 Let_def)

lemma snapshot_ab:
  "snapshot_of (\<lambda>k. k) str_nat [(''b'', 2), (''a'', 3)] = [(''a'', ''3''), (''b'', ''2'')]"
  by code_simp

lemma dumps_ab: "dumps0 [(''a'', ''3''), (''b'', ''2'')] = ''a=3;b=2;''"
  by (simp add: dumps0_def)

lemma call_world2:
  "XTBug_call (\<lambda>k. k) str_nat dumps0 self0 [] (Some [(''b'', 2), (''a'', 3)]) [] world2 =
     Some (Inr (), [(''b'', 2), (''a'', 3)], world2)"
  by (simp add: XTBug_call_def os_write_def snapshot_ab dumps_ab self0_def world2_def world1_fd
      world1_capacity Let_def)

lemma call_world1:
  "XTBug_call (\<lambda>k. k) str_nat dumps0 self0 [] (Some [(''b'', 2), (''a'', 3)]) [] world1 =
     Some (Inr (), [(''b'', 2), (''a'', 3)], world2)"
  by (simp add: XTBug_call_def os_write_def snapshot_ab dumps_ab self0_def world2_def world1_fd
      world1_capacity world1_pipe Let_def)

lemma world2_fd: "fds world2 = fds world1"
  by (simp add: world2_def)

lemma self0_sout: "sout self0 = 3"
  by (simp add: self0_def)

lemma PIPE_0: "PIPE 0 = ''/tmp/xtbug0.pipe''"
  by (simp add: PIPE_def str_nat_0)

lemma snapshot_a:
  "snapshot_of (\<lambda>k. k) str_nat [(''a'', 3)] = [(''a'', ''3'')]"
  by code_simp

lemma call_named:
  "XTBug_call (\<lambda>k. k) str_nat dumps0 self0 [] (Some [(''b'', 2), (''a'', 3)]) [''a'', ''zz''] world1 =
     Some (Inr (), [(''b'', 2)], world1\<lparr>pipes := (pipes world1)(0 \<mapsto> ''a=3;'')\<rparr>)"
  by (simp add: XTBug_call_def os_write_def dict_pop_def snapshot_a dumps0_def self0_def world1_fd
      world1_capacity world1_pipe Let_def)


subsection \<open>The claims\<close>

text \<open>
  C1. An object that \<^verbatim>\<open>__init__\<close> returned holds a descriptor opened with
  \<^verbatim>\<open>O_NONBLOCK\<close>. In any later world where that descriptor is still as it was opened,
  or has been closed, \<^verbatim>\<open>__call__\<close> returns (it does not block) and returns normally
  (no exception reaches the caller), for every mapping and every list of names. The world
  it leaves is the one it found, or that world with a prefix of the pickle of one snapshot
  of items of the mapping appended once to the pipe; when the pipe is full it is the one
  it found: the write is dropped.
\<close>

theorem call_never_blocks_never_raises:
  fixes variables :: "('k, 'v) dict option" and caller_locals :: "('k, 'v) dict"
  defines "m \<equiv> (case variables of None \<Rightarrow> caller_locals | Some x \<Rightarrow> x)"
  assumes init: "XTBug_init fg bg w h hold wd0 = (Inr self, wd1)"
    and later: "fds wd (sout self) = fds wd1 (sout self) \<or> fds wd (sout self) = None"
  shows "(\<exists>d. fds wd1 (sout self) = Some d \<and> O_NONBLOCK \<in> set (flags d)) \<and>
         (\<exists>m' wd'. XTBug_call str pformat dumps self caller_locals variables args wd =
              Some (Inr (), m', wd') \<and>
            (wd' = wd \<or>
             (\<exists>d buf n sent. fds wd (sout self) = Some d \<and> pipes wd (ino d) = Some buf \<and>
                set sent \<subseteq> set m \<and>
                wd' = wd\<lparr>pipes := (pipes wd)
                       (ino d \<mapsto> buf @ take n (dumps (snapshot_of str pformat sent)))\<rparr>)) \<and>
            (\<forall>d buf. fds wd (sout self) = Some d \<longrightarrow> pipes wd (ino d) = Some buf \<longrightarrow>
                capacity wd \<le> length buf \<longrightarrow> wd' = wd))"
proof -
  from init_descriptor [OF init] obtain d1 where
    d1: "fds wd1 (sout self) = Some d1" "flags d1 = [O_RDWR, O_NONBLOCK]" by blast
  with later have nb: "\<forall>d. fds wd (sout self) = Some d \<longrightarrow> O_NONBLOCK \<in> set (flags d)"
    by auto
  have m: "m = (case variables of None \<Rightarrow> caller_locals | Some x \<Rightarrow> x)" by (simp add: m_def)
  from call_nonblock [OF m nb, of str pformat dumps args]
  obtain wd' where
    ret: "XTBug_call str pformat dumps self caller_locals variables args wd =
       Some (Inr (), filter (\<lambda>p. fst p \<notin> set args) m, wd')"
    and eff: "wd' = wd \<or>
       (\<exists>d buf n sent. fds wd (sout self) = Some d \<and> pipes wd (ino d) = Some buf \<and>
          length buf < capacity wd \<and> set sent \<subseteq> set m \<and>
          wd' = wd\<lparr>pipes := (pipes wd)
                 (ino d \<mapsto> buf @ take n (dumps (snapshot_of str pformat sent)))\<rparr>)"
    by blast
  from eff have full: "\<forall>d buf. fds wd (sout self) = Some d \<longrightarrow> pipes wd (ino d) = Some buf \<longrightarrow>
      capacity wd \<le> length buf \<longrightarrow> wd' = wd"
    by auto
  from eff have eff': "wd' = wd \<or>
       (\<exists>d buf n sent. fds wd (sout self) = Some d \<and> pipes wd (ino d) = Some buf \<and>
          set sent \<subseteq> set m \<and>
          wd' = wd\<lparr>pipes := (pipes wd)
                 (ino d \<mapsto> buf @ take n (dumps (snapshot_of str pformat sent)))\<rparr>)"
    by blast
  from d1 have "\<exists>d. fds wd1 (sout self) = Some d \<and> O_NONBLOCK \<in> set (flags d)" by simp
  with ret eff' full show ?thesis by blast
qed

theorem call_never_blocks_never_raises_witness:
  "XTBug_init ''white'' ''blue'' 120 60 True world0 = (Inr self0, world1) \<and>
   fds world2 (sout self0) = fds world1 (sout self0) \<and>
   XTBug_call (\<lambda>k. k) str_nat dumps0 self0 [] (Some [(''b'', 2), (''a'', 3)]) [] world2 =
     Some (Inr (), [(''b'', 2), (''a'', 3)], world2)"
  using call_never_blocks_never_raises [where fg = "''white''" and bg = "''blue''" and w = 120
      and h = 60 and hold = True and ?wd0.0 = world0 and self = self0 and ?wd1.0 = world1
      and wd = world2 and str = "\<lambda>k. k" and pformat = str_nat and dumps = dumps0
      and caller_locals = "[]" and variables = "Some [(''b'', 2), (''a'', 3)]" and args = "[]"]
  by (simp add: init_world0 call_world2 world2_fd)

text \<open>
  C2. Whatever mapping a call sends, with names given or without, and whenever the pipe has
  room for the pickle: the call returns normally and the pipe gets the pickle of \<open>S\<close>,
  the list of the pairs (\<^verbatim>\<open>str\<close> of the key, \<^verbatim>\<open>pformat\<close> of the value) of the items
  sent, one pair per item, in ascending order; in particular the names of \<open>S\<close> ascend.
  The values are text before they are pickled; what the reader gets back is
  \<^verbatim>\<open>pickle.load\<close> of these bytes.
\<close>

theorem snapshot_pairs_sorted_by_name:
  fixes variables :: "('k, 'v) dict option" and caller_locals :: "('k, 'v) dict"
    and str :: "'k \<Rightarrow> string" and pformat :: "'v \<Rightarrow> string" and args :: "'k list"
  defines "m \<equiv> (case variables of None \<Rightarrow> caller_locals | Some x \<Rightarrow> x)"
  defines "sel \<equiv> (if args = [] then m else filter (\<lambda>p. fst p \<in> set args) m)"
  defines "S \<equiv> sort (map (\<lambda>(k, v). (str k, pformat v)) sel)"
  assumes dist: "distinct (map fst m)"
    and fd: "fds wd (sout self) = Some d"
    and buf: "pipes wd (ino d) = Some buf"
    and room: "length buf + length (dumps S) \<le> capacity wd"
  shows "\<exists>m' wd'. XTBug_call str pformat dumps self caller_locals variables args wd =
            Some (Inr (), m', wd') \<and>
          pipes wd' (ino d) = Some (buf @ dumps S) \<and>
          mset S = image_mset (\<lambda>(k, v). (str k, pformat v)) (mset sel) \<and>
          sorted S \<and> sorted (map fst S)"
proof -
  have S: "S = snapshot_of str pformat sel" by (simp add: S_def snapshot_of_def)
  have m: "m = (case variables of None \<Rightarrow> caller_locals | Some x \<Rightarrow> x)" by (simp add: m_def)
  have S': "S = snapshot_of str pformat (if args = [] then m else filter (\<lambda>p. fst p \<in> set args) m)"
    by (simp add: S sel_def)
  have "XTBug_call str pformat dumps self caller_locals variables args wd =
      Some (Inr (), filter (\<lambda>p. fst p \<notin> set args) m,
            wd\<lparr>pipes := (pipes wd)(ino d \<mapsto> buf @ dumps S)\<rparr>)"
    by (rule call_delivers [where dumps = dumps and S = S, OF m S' dist fd buf room])
  moreover have "mset S = image_mset (\<lambda>(k, v). (str k, pformat v)) (mset sel)"
    by (simp add: S_def)
  moreover have "sorted S" by (simp add: S_def)
  moreover have "sorted (map fst S)" by (simp add: S snapshot_of_sorted)
  ultimately show ?thesis by simp
qed

theorem snapshot_pairs_sorted_by_name_witness:
  "distinct (map fst [(''b'', 2::nat), (''a'', 3)]) \<and>
   fds world1 (sout self0) = Some \<lparr>ino = 0, flags = [O_RDWR, O_NONBLOCK]\<rparr> \<and>
   pipes world1 0 = Some [] \<and>
   XTBug_call (\<lambda>k. k) str_nat dumps0 self0 [] (Some [(''b'', 2), (''a'', 3)]) [] world1 =
     Some (Inr (), [(''b'', 2), (''a'', 3)], world2) \<and>
   pipes world2 0 = Some (dumps0 [(''a'', ''3''), (''b'', ''2'')])"
  using snapshot_pairs_sorted_by_name [where str = "\<lambda>k. k" and pformat = str_nat and dumps = dumps0
      and self = self0 and caller_locals = "[]" and variables = "Some [(''b'', 2), (''a'', 3)]"
      and args = "[]" and wd = world1 and d = "\<lparr>ino = 0, flags = [O_RDWR, O_NONBLOCK]\<rparr>"
      and buf = "[]"]
  by (simp add: call_world1 world1_fd world1_pipe self0_sout world2_def dumps_ab snapshot_ab [unfolded snapshot_of_def])



text \<open>
  C5. A turn of the loop whose formatted text equals \<open>outprev\<close>, the text of the last
  repaint, leaves the display as it is. A turn that repaints had a text different from
  \<open>outprev\<close> and repaints once. A turn on the same snapshot right after is without
  effect, so the same snapshot twice in a row gives at most one repaint.
\<close>

theorem repaint_only_on_change:
  "(rows [] snap = outprev d \<longrightarrow> iteration fits d snap = (Inr (), d)) \<and>
   (iteration fits d snap = (Inr (), d') \<longrightarrow>
      (repaints d' \<noteq> repaints d \<longrightarrow>
         rows [] snap \<noteq> outprev d \<and> repaints d' = Suc (repaints d)) \<and>
      iteration fits d' snap = (Inr (), d')) \<and>
   repaints (snd (main fits d [snap, snap])) \<le> Suc (repaints d)"
proof (intro conjI impI)
  show "iteration fits d snap = (Inr (), d)" if "rows [] snap = outprev d"
    using that by (rule iteration_same)
  show "rows [] snap \<noteq> outprev d"
    if "iteration fits d snap = (Inr (), d')" "repaints d' \<noteq> repaints d"
    using iteration_cases [OF that(1)] that(2) by auto
  show "repaints d' = Suc (repaints d)"
    if "iteration fits d snap = (Inr (), d')" "repaints d' \<noteq> repaints d"
    using iteration_cases [OF that(1)] that(2) by auto
  show "iteration fits d' snap = (Inr (), d')" if "iteration fits d snap = (Inr (), d')"
    using that by (rule iteration_again)
  show "repaints (snd (main fits d [snap, snap])) \<le> Suc (repaints d)"
  proof (cases "iteration fits d snap")
    case (Pair r d1)
    show ?thesis
    proof (cases r)
      case (Inl e)
      with Pair iteration_raises [of fits d snap e d1] show ?thesis by simp
    next
      case (Inr u)
      with Pair have it: "iteration fits d snap = (Inr (), d1)" by simp
      from iteration_again [OF it] iteration_cases [OF it] it show ?thesis by auto
    qed
  qed
qed

theorem repaint_only_on_change_witness:
  "iteration (\<lambda>s. True) display0 snap12 = (Inr (), snd (iteration (\<lambda>s. True) display0 snap12)) \<and>
   repaints (snd (iteration (\<lambda>s. True) display0 snap12)) \<noteq> repaints display0 \<and>
   rows [] snap12 \<noteq> outprev display0 \<and>
   rows [] snap12 = outprev (snd (iteration (\<lambda>s. True) display0 snap12)) \<and>
   repaints (snd (main (\<lambda>s. True) display0 [snap12, snap12])) = 1 \<and>
   repaints (snd (main (\<lambda>s. True) display0 [snap12, snap12, snap32])) = 2"
  using repaint_only_on_change [of snap12 display0 "\<lambda>s. True" "snd (iteration (\<lambda>s. True) display0 snap12)"]
    repaint_only_on_change [of snap12 "snd (iteration (\<lambda>s. True) display0 snap12)" "\<lambda>s. True"]
  by (simp add: display0_def snap12_def snap32_def iteration_def name_field_def fmt_def
      repaints_def Let_def)

text \<open>
  C6. A call with names, on a mapping with room in the pipe: it returns normally, also
  when some names are not keys of the mapping, and the snapshot pickled has exactly the
  pairs of the items whose key is among the names, each with the text of its value.
\<close>

theorem named_call_selects:
  fixes variables :: "('k, 'v) dict option" and caller_locals :: "('k, 'v) dict"
    and str :: "'k \<Rightarrow> string" and pformat :: "'v \<Rightarrow> string" and args :: "'k list"
  defines "m \<equiv> (case variables of None \<Rightarrow> caller_locals | Some x \<Rightarrow> x)"
  defines "S \<equiv> sort (map (\<lambda>(k, v). (str k, pformat v)) (filter (\<lambda>p. fst p \<in> set args) m))"
  assumes named: "args \<noteq> []"
    and dist: "distinct (map fst m)"
    and fd: "fds wd (sout self) = Some d"
    and buf: "pipes wd (ino d) = Some buf"
    and room: "length buf + length (dumps S) \<le> capacity wd"
  shows "\<exists>m' wd'. XTBug_call str pformat dumps self caller_locals variables args wd =
            Some (Inr (), m', wd') \<and>
          pipes wd' (ino d) = Some (buf @ dumps S) \<and>
          mset S = image_mset (\<lambda>(k, v). (str k, pformat v))
                     (mset (filter (\<lambda>p. fst p \<in> set args) m)) \<and>
          set S = {(str k, pformat v) |k v. k \<in> set args \<and> map_of m k = Some v}"
proof -
  have m: "m = (case variables of None \<Rightarrow> caller_locals | Some x \<Rightarrow> x)" by (simp add: m_def)
  have S': "S = snapshot_of str pformat (if args = [] then m else filter (\<lambda>p. fst p \<in> set args) m)"
    using named by (simp add: S_def snapshot_of_def)
  have "XTBug_call str pformat dumps self caller_locals variables args wd =
      Some (Inr (), filter (\<lambda>p. fst p \<notin> set args) m,
            wd\<lparr>pipes := (pipes wd)(ino d \<mapsto> buf @ dumps S)\<rparr>)"
    by (rule call_delivers [where dumps = dumps and S = S, OF m S' dist fd buf room])
  moreover have "mset S = image_mset (\<lambda>(k, v). (str k, pformat v))
                     (mset (filter (\<lambda>p. fst p \<in> set args) m))"
    by (simp add: S_def)
  moreover have "set S = {(str k, pformat v) |k v. k \<in> set args \<and> map_of m k = Some v}"
    by (force simp: S_def map_of_eq_Some_iff [OF dist])
  ultimately show ?thesis by simp
qed

theorem named_call_selects_witness:
  "[''a'', ''zz''] \<noteq> [] \<and> distinct (map fst [(''b'', 2::nat), (''a'', 3)]) \<and>
   fds world1 (sout self0) = Some \<lparr>ino = 0, flags = [O_RDWR, O_NONBLOCK]\<rparr> \<and>
   pipes world1 0 = Some [] \<and>
   XTBug_call (\<lambda>k. k) str_nat dumps0 self0 [] (Some [(''b'', 2), (''a'', 3)]) [''a'', ''zz''] world1 =
     Some (Inr (), [(''b'', 2)], world1\<lparr>pipes := (pipes world1)(0 \<mapsto> dumps0 [(''a'', ''3'')])\<rparr>)"
  using named_call_selects [where str = "\<lambda>k. k" and pformat = str_nat and dumps = dumps0
      and self = self0 and caller_locals = "[]" and variables = "Some [(''b'', 2), (''a'', 3)]"
      and args = "[''a'', ''zz'']" and wd = world1
      and d = "\<lparr>ino = 0, flags = [O_RDWR, O_NONBLOCK]\<rparr>" and buf = "[]"]
  by (simp add: call_named world1_fd world1_pipe self0_sout dumps0_def)

text \<open>
  C7. Let \<open>p\<close> be the path of the next object. When an entry may be created at \<open>p\<close>
  and, if one is there, may be removed, the \<^verbatim>\<open>try\<close> block leaves a new FIFO with an
  empty buffer at \<open>p\<close> whatever was there, and the constructor returns an object on that
  FIFO (or raises the \<^verbatim>\<open>OSError\<close> of \<^verbatim>\<open>Popen\<close> when xterm is missing). Otherwise
  the block raises an \<^verbatim>\<open>OSError\<close> and the constructor raises it to its caller.
\<close>

theorem init_recreates_pipe:
  fixes wd :: world
  defines "p \<equiv> PIPE (count wd)"
  defines "wd0 \<equiv> wd\<lparr>count := count wd + 1\<rparr>"
  defines "can \<equiv> may_create wd p \<and> (files wd p \<noteq> None \<longrightarrow> may_remove wd p)"
  shows "(can \<longrightarrow>
           (\<exists>wd1. make_pipe wd0 p = (None, wd1) \<and>
              files wd1 p = Some (Fifo (next_ino wd)) \<and> pipes wd1 (next_ino wd) = Some [] \<and>
              (if ''xterm'' \<in> set (programs wd) then
                 \<exists>self wd'. XTBug_init fg bg w h hold wd = (Inr self, wd') \<and> pipe self = p \<and>
                    files wd' p = Some (Fifo (next_ino wd)) \<and>
                    pipes wd' (next_ino wd) = Some [] \<and>
                    (\<exists>d. fds wd' (sout self) = Some d \<and> ino d = next_ino wd)
               else XTBug_init fg bg w h hold wd = (Inl (OSError ENOENT), wd1)))) \<and>
         (\<not> can \<longrightarrow>
           (\<exists>e wd'. make_pipe wd0 p = (Some (OSError e), wd') \<and>
              XTBug_init fg bg w h hold wd = (Inl (OSError e), wd')))"
proof (intro conjI impI)
  assume can
  then have "may_create wd0 p" and "files wd0 p \<noteq> None \<longrightarrow> may_remove wd0 p"
    by (simp_all add: can_def wd0_def)
  from make_pipe_ok [OF this]
  show "\<exists>wd1. make_pipe wd0 p = (None, wd1) \<and>
              files wd1 p = Some (Fifo (next_ino wd)) \<and> pipes wd1 (next_ino wd) = Some [] \<and>
              (if ''xterm'' \<in> set (programs wd) then
                 \<exists>self wd'. XTBug_init fg bg w h hold wd = (Inr self, wd') \<and> pipe self = p \<and>
                    files wd' p = Some (Fifo (next_ino wd)) \<and>
                    pipes wd' (next_ino wd) = Some [] \<and>
                    (\<exists>d. fds wd' (sout self) = Some d \<and> ino d = next_ino wd)
               else XTBug_init fg bg w h hold wd = (Inl (OSError ENOENT), wd1))"
    by (simp add: XTBug_init_def Let_def p_def wd0_def os_open_def Popen_def xterm_options_def)
next
  assume "\<not> can"
  then have "\<not> (may_create wd0 p \<and> (files wd0 p \<noteq> None \<longrightarrow> may_remove wd0 p))"
    by (simp add: can_def wd0_def)
  from make_pipe_fails [OF this] obtain e wd' where "make_pipe wd0 p = (Some (OSError e), wd')"
    by blast
  then show "\<exists>e wd'. make_pipe wd0 p = (Some (OSError e), wd') \<and>
              XTBug_init fg bg w h hold wd = (Inl (OSError e), wd')"
    by (simp add: XTBug_init_def Let_def p_def wd0_def)
qed

theorem init_recreates_pipe_witness:
  "files stale0 (PIPE (count stale0)) = Some (Fifo 0) \<and> pipes stale0 0 = Some ''old'' \<and>
   may_create stale0 (PIPE (count stale0)) \<and> may_remove stale0 (PIPE (count stale0)) \<and>
   (\<exists>self wd'. XTBug_init ''white'' ''blue'' 120 60 True stale0 = (Inr self, wd') \<and>
      pipe self = ''/tmp/xtbug0.pipe'' \<and> files wd' ''/tmp/xtbug0.pipe'' = Some (Fifo 1) \<and>
      pipes wd' 1 = Some []) \<and>
   files locked0 (PIPE (count locked0)) = Some (Fifo 0) \<and>
   \<not> may_remove locked0 (PIPE (count locked0)) \<and>
   (\<exists>e wd'. XTBug_init ''white'' ''blue'' 120 60 True locked0 = (Inl (OSError e), wd'))"
  using init_recreates_pipe [of stale0 "''white''" "''blue''" 120 60 True]
    init_recreates_pipe [of locked0 "''white''" "''blue''" 120 60 True]
  by (simp add: stale0_def locked0_def world0_def PIPE_0) blast

text \<open>
  C8 as stated fails: the second of two \<^verbatim>\<open>__del__\<close> calls on a new object raises.
\<close>

theorem double_del_counterexample:
  "fst (XTBug_del self0 world1) = Inr () \<and>
   fst (XTBug_del self0 (snd (XTBug_del self0 world1))) = Inl (OSError EBADF)"
  by (simp add: XTBug_del_def os_close_def self0_def world1_fd)

text \<open>
  C8, as the code has it. \<^verbatim>\<open>__del__\<close> on an object whose descriptor is open closes it
  and returns; called again, or on a descriptor already closed, it raises
  \<^verbatim>\<open>OSError\<close> with \<^verbatim>\<open>EBADF\<close>.
\<close>

theorem del_closes_once:
  "(fds wd (sout self) \<noteq> None \<longrightarrow>
      (\<exists>wd'. XTBug_del self wd = (Inr (), wd') \<and> fds wd' (sout self) = None \<and>
         XTBug_del self wd' = (Inl (OSError EBADF), wd'))) \<and>
   (fds wd (sout self) = None \<longrightarrow> XTBug_del self wd = (Inl (OSError EBADF), wd))"
  by (simp add: XTBug_del_def os_close_def)

theorem del_closes_once_witness:
  "fds world1 (sout self0) \<noteq> None \<and>
   (\<exists>wd'. XTBug_del self0 world1 = (Inr (), wd') \<and> fds wd' (sout self0) = None \<and>
      XTBug_del self0 wd' = (Inl (OSError EBADF), wd')) \<and>
   fds world0 (sout self0) = None \<and>
   XTBug_del self0 world0 = (Inl (OSError EBADF), world0)"
  using del_closes_once [of world1 self0] del_closes_once [of world0 self0]
  by (simp add: self0_def world1_fd world0_def)

text \<open>
  C9. A call on a descriptor that does not block returns the caller's mapping without the
  items whose key is among the names given: those keys are gone, every other key has the
  value it had. With no names the mapping is as it was.
\<close>

theorem named_call_pops:
  fixes variables :: "('k, 'v) dict option" and caller_locals :: "('k, 'v) dict" and args :: "'k list"
  defines "m \<equiv> (case variables of None \<Rightarrow> caller_locals | Some x \<Rightarrow> x)"
  assumes nb: "\<forall>d. fds wd (sout self) = Some d \<longrightarrow> O_NONBLOCK \<in> set (flags d)"
  shows "\<exists>m' wd'. XTBug_call str pformat dumps self caller_locals variables args wd =
            Some (Inr (), m', wd') \<and>
          m' = filter (\<lambda>p. fst p \<notin> set args) m \<and>
          (\<forall>k. map_of m' k = (if k \<in> set args then None else map_of m k))"
proof -
  have "map_of (filter (\<lambda>p. fst p \<notin> set args) m) k = (if k \<in> set args then None else map_of m k)"
    for k
    by (induction m) auto
  with call_nonblock [OF refl nb, of str pformat dumps caller_locals variables args]
  show ?thesis unfolding m_def by blast
qed

theorem named_call_pops_witness:
  "fds world1 (sout self0) = Some \<lparr>ino = 0, flags = [O_RDWR, O_NONBLOCK]\<rparr> \<and>
   XTBug_call (\<lambda>k. k) str_nat dumps0 self0 [] (Some [(''b'', 2), (''a'', 3)]) [''a'', ''zz''] world1 =
     Some (Inr (), [(''b'', 2)], world1\<lparr>pipes := (pipes world1)(0 \<mapsto> ''a=3;'')\<rparr>) \<and>
   map_of [(''b'', 2::nat)] ''a'' = None \<and> map_of [(''b'', 2::nat)] ''b'' = Some 2"
  using named_call_pops [where str = "\<lambda>k. k" and pformat = str_nat and dumps = dumps0
      and self = self0 and caller_locals = "[]" and variables = "Some [(''b'', 2), (''a'', 3)]"
      and args = "[''a'', ''zz'']" and wd = world1]
  by (simp add: call_named world1_fd self0_sout)

text \<open>
  C10. The empty snapshot formats to the empty text, and a turn of the loop on it leaves
  the display, whatever it is, as it was: nothing is painted and \<open>outprev\<close> is kept.
\<close>

theorem empty_snapshot_no_repaint:
  "rows [] [] = [] \<and> iteration fits d [] = (Inr (), d) \<and>
   main fits d ([] # sin) = main fits d sin"
  by (simp add: iteration_def)

end
